theory Spec2Isabelle
  imports Complex_Main
begin

section \<open>Numeric conventions\<close>

text \<open>
  The notebook computes with Python floats.  Here a float is a \<^typ>\<open>real\<close> and the
  arithmetic is exact: rounding error, infinities and NaN are outside the model.
  Every concrete input used below is a dyadic rational on which the float
  operations of the source are exact as well.
\<close>

datatype py_error = ZeroDivisionError | ValueError | IndexError

text \<open>Python's \<open>int(x)\<close> on a float truncates toward zero.\<close>

definition py_int :: "real \<Rightarrow> int" where
  "py_int x = (if 0 \<le> x then \<lfloor>x\<rfloor> else \<lceil>x\<rceil>)"

text \<open>Bounds are tuples \<open>(left, bottom, right, top)\<close>, as rasterio and shapely order them.\<close>

type_synonym bounds = "real \<times> real \<times> real \<times> real"

section \<open>Rasters\<close>

text \<open>
  A north-up single-band raster: the affine transform \<open>from_origin(west, north, xsize, ysize)\<close>
  is kept as its origin and pixel size (\<open>src.res\<close>), the profile's width and height as
  naturals, the band as a list of rows from the top.
\<close>

record raster =
  west :: real
  north :: real
  res_x :: real
  res_y :: real
  width :: nat
  height :: nat
  nodata :: "real option"
  pixels :: "real list list"

text \<open>\<open>rasterio.transform.array_bounds(height, width, transform)\<close>\<close>

definition array_bounds :: "nat \<Rightarrow> nat \<Rightarrow> raster \<Rightarrow> bounds" where
  "array_bounds h w m =
     (west m, north m - real h * res_y m, west m + real w * res_x m, north m)"

text \<open>
  \<open>box(*a).contains_properly(box(*b))\<close> for two boxes given by their bounds
  (each with minimum \<open>\<le>\<close> maximum): \<open>b\<close> lies in the interior of \<open>a\<close>, so no edge may touch.
\<close>

fun contains_properly :: "bounds \<Rightarrow> bounds \<Rightarrow> bool" where
  "contains_properly (a_l, a_b, a_r, a_t) (b_l, b_b, b_r, b_t) =
     (a_l < b_l \<and> b_r < a_r \<and> a_b < b_b \<and> b_t < a_t)"

text \<open>Plain containment of extents, edges allowed to coincide.\<close>

fun contains_bounds :: "bounds \<Rightarrow> bounds \<Rightarrow> bool" where
  "contains_bounds (a_l, a_b, a_r, a_t) (b_l, b_b, b_r, b_t) =
     (a_l \<le> b_l \<and> b_r \<le> a_r \<and> a_b \<le> b_b \<and> b_t \<le> a_t)"

section \<open>expand_raster_with_bounds\<close>

text \<open>
  The four assignments that adjust the new bounds
  (\<open>new_left = old_left - int(abs(new_left-old_left)/src.res[0])*src.res[0]\<close> and its
  three siblings).  Float division by a zero pixel size raises.
\<close>

fun adjusted_bounds :: "real \<times> real \<Rightarrow> bounds \<Rightarrow> bounds \<Rightarrow> py_error + bounds" where
  "adjusted_bounds (rx, ry) (old_left, old_bottom, old_right, old_top)
                   (new_left, new_bottom, new_right, new_top) =
     (if rx = 0 \<or> ry = 0 then Inl ZeroDivisionError
      else Inr (old_left - real_of_int (py_int (\<bar>new_left - old_left\<bar> / rx)) * rx,
                old_bottom - real_of_int (py_int (\<bar>new_bottom - old_bottom\<bar> / ry)) * ry,
                old_right + real_of_int (py_int (\<bar>new_right - old_right\<bar> / rx)) * rx,
                old_top + real_of_int (py_int (\<bar>new_top - old_top\<bar> / ry)) * ry))"

text \<open>\<open>np.full((new_height, new_width), fill_value)\<close>; a negative dimension raises.\<close>

definition np_full :: "int \<Rightarrow> int \<Rightarrow> real \<Rightarrow> py_error + real list list" where
  "np_full h w v =
     (if h < 0 \<or> w < 0 then Inl ValueError
      else Inr (replicate (nat h) (replicate (nat w) v)))"

text \<open>Reading one pixel by row and column, \<open>None\<close> outside the grid.\<close>

definition pixel_at :: "raster \<Rightarrow> int \<Rightarrow> int \<Rightarrow> real option" where
  "pixel_at m i j =
     (if 0 \<le> i \<and> i < int (length (pixels m)) \<and> 0 \<le> j \<and> j < int (length (pixels m ! nat i))
      then Some (pixels m ! nat i ! nat j) else None)"

fun combine_max :: "real \<Rightarrow> real option \<Rightarrow> real option \<Rightarrow> real" where
  "combine_max d None None = d"
| "combine_max d (Some x) None = x"
| "combine_max d None (Some y) = y"
| "combine_max d (Some x) (Some y) = max x y"

text \<open>
  Modelled from the spec: \<open>rasterio.merge.merge(datasets=[a, b], method='max')\<close> is a library
  call whose code is not part of the repository.  Following the spec's MosaicBuilder and
  CoverageExpander, the output extent is the union of the two extents on the grid of the
  first dataset, and a pixel covered by both inputs takes the larger value; a pixel covered
  by one input takes that value, a pixel covered by none the nodata value (0 when unset).
\<close>

definition merge_max :: "raster \<Rightarrow> raster \<Rightarrow> raster" where
  "merge_max a b =
     (case (array_bounds (height a) (width a) a, array_bounds (height b) (width b) b) of
        ((a_l, a_b, a_r, a_t), (b_l, b_b, b_r, b_t)) \<Rightarrow>
          let w = min a_l b_l; s = min a_b b_b; e = max a_r b_r; n = max a_t b_t;
              out_w = nat (round ((e - w) / res_x a));
              out_h = nat (round ((n - s) / res_y a));
              ca = round ((a_l - w) / res_x a); ra = round ((n - a_t) / res_y a);
              cb = round ((b_l - w) / res_x a); rb = round ((n - b_t) / res_y a);
              d = (case nodata a of None \<Rightarrow> 0 | Some v \<Rightarrow> v)
          in \<lparr> west = w, north = n, res_x = res_x a, res_y = res_y a,
               width = out_w, height = out_h, nodata = nodata a,
               pixels = map (\<lambda>i. map (\<lambda>j. combine_max d (pixel_at a (int i - ra) (int j - ca))
                                                       (pixel_at b (int i - rb) (int j - cb)))
                                  [0..<out_w]) [0..<out_h] \<rparr>)"

text \<open>
  The function itself.  \<open>fill_value\<close> defaults to \<open>None\<close>, which selects the profile's nodata;
  when that is unset too numpy fills with NaN, which has no real value and is reported
  as \<open>ValueError\<close> here.  The temporary file and its removal leave no trace in the result.
\<close>

definition expand_raster_with_bounds ::
    "raster \<Rightarrow> bounds \<Rightarrow> bounds \<Rightarrow> real option \<Rightarrow> py_error + raster" where
  "expand_raster_with_bounds input_raster old_bounds new_bounds fill_value =
     (case adjusted_bounds (res_x input_raster, res_y input_raster) old_bounds new_bounds of
        Inl e \<Rightarrow> Inl e
      | Inr (new_left, new_bottom, new_right, new_top) \<Rightarrow>
          let new_width = py_int ((new_right - new_left) / res_x input_raster);
              new_height = py_int ((new_top - new_bottom) / res_y input_raster)
          in (case (case fill_value of None \<Rightarrow> nodata input_raster | Some v \<Rightarrow> Some v) of
                None \<Rightarrow> Inl ValueError
              | Some fv \<Rightarrow>
                 (case np_full new_height new_width fv of
                    Inl e \<Rightarrow> Inl e
                  | Inr data \<Rightarrow>
                      Inr (merge_max
                             (input_raster \<lparr> west := new_left, north := new_top,
                                             width := nat new_width, height := nat new_height,
                                             pixels := data \<rparr>)
                             input_raster))))"

text \<open>
  The cell "Ensure the DEM covers the scene ROI for ISCE3": the DEM is expanded, padded
  with 0, unless its bounds properly contain the scene bounds; the expanded file then
  replaces the merged DEM.
\<close>

definition ensure_dem_covers :: "raster \<Rightarrow> bounds \<Rightarrow> py_error + raster" where
  "ensure_dem_covers dem scene_bounds =
     (let dem_bounds = array_bounds (height dem) (width dem) dem
      in if \<not> contains_properly dem_bounds scene_bounds
         then expand_raster_with_bounds dem dem_bounds scene_bounds (Some 0)
         else Inr dem)"

section \<open>Polygons and the adjustment of scene bounds at extreme latitudes\<close>

type_synonym point = "real \<times> real"

text \<open>
  A shapely \<open>Polygon\<close> is kept as the coordinate list of its exterior ring; shapely closes
  the ring by repeating the first point when the given sequence is not closed already.
\<close>

definition Polygon :: "point list \<Rightarrow> point list" where
  "Polygon ps = (case ps of [] \<Rightarrow> [] | p # _ \<Rightarrow> if last ps = p then ps else ps @ [p])"

text \<open>Python's \<open>min\<close> and \<open>max\<close> of a list raise on the empty list.\<close>

fun py_min :: "real list \<Rightarrow> py_error + real" where
  "py_min [] = Inl ValueError"
| "py_min (x # xs) = Inr (fold min xs x)"

fun py_max :: "real list \<Rightarrow> py_error + real" where
  "py_max [] = Inl ValueError"
| "py_max (x # xs) = Inr (fold max xs x)"

text \<open>\<open>.bounds\<close> of a polygon: \<open>(minx, miny, maxx, maxy)\<close> over the ring.\<close>

definition poly_bounds :: "point list \<Rightarrow> py_error + bounds" where
  "poly_bounds ps =
     (case (py_min (map fst ps), py_min (map snd ps), py_max (map fst ps), py_max (map snd ps)) of
        (Inr x0, Inr y0, Inr x1, Inr y1) \<Rightarrow> Inr (x0, y0, x1, y1)
      | _ \<Rightarrow> Inl ValueError)"

text \<open>
  \<open>np.arange(start, stop, step)\<close> on floats: \<open>ceil((stop - start) / step)\<close> values
  \<open>start + i * step\<close>, none when that count is not positive.
\<close>

definition np_arange :: "real \<Rightarrow> real \<Rightarrow> real \<Rightarrow> py_error + real list" where
  "np_arange start stop step =
     (if step = 0 then Inl ZeroDivisionError
      else Inr (map (\<lambda>i. start + real i * step) [0..<nat \<lceil>(stop - start) / step\<rceil>]))"

text \<open>
  The coordinate transformation is pyproj's; it enters as the parameter \<open>tr\<close>, called with
  the source and destination EPSG codes (\<open>always_xy=True\<close>).
\<close>

type_synonym transformer = "nat \<Rightarrow> nat \<Rightarrow> point \<Rightarrow> point"

definition transform_polygon :: "transformer \<Rightarrow> nat \<Rightarrow> nat \<Rightarrow> point list \<Rightarrow> point list" where
  "transform_polygon tr src_crs dst_crs geometry = Polygon (map (tr src_crs dst_crs) geometry)"

definition adjust_scene_poly_at_extreme_lat ::
    "transformer \<Rightarrow> bounds \<Rightarrow> nat \<Rightarrow> nat \<Rightarrow> real \<Rightarrow> py_error + point list" where
  "adjust_scene_poly_at_extreme_lat tr bbox src_crs ref_crs delta =
     (case bbox of (x_min, y_min, x_max, y_max) \<Rightarrow>
       (case (np_arange x_min x_max delta,
              np_arange (y_max - delta) (y_min - delta) (- delta),
              np_arange (x_max - delta) (x_min - delta) (- delta),
              np_arange (y_min + delta) y_max delta) of
          (Inr top_xs, Inr right_ys, Inr bottom_xs, Inr left_ys) \<Rightarrow>
            let top_side = map (\<lambda>x. (x, y_max)) (top_xs @ [x_max]);
                right_side = map (\<lambda>y. (x_max, y)) (right_ys @ [y_min]);
                bottom_side = map (\<lambda>x. (x, y_min)) (bottom_xs @ [x_min]);
                left_side = map (\<lambda>y. (x_min, y)) (left_ys @ [y_max]);
                all_points = top_side @ right_side @ bottom_side @ left_side;
                polygon = Polygon all_points
            in (case poly_bounds (transform_polygon tr src_crs ref_crs polygon) of
                  Inl e \<Rightarrow> Inl e
                | Inr (t0, t1, t2, t3) \<Rightarrow>
                    Inr (transform_polygon tr ref_crs src_crs
                           (Polygon [(t0, t1), (t2, t1), (t2, t3), (t0, t3)])))
        | _ \<Rightarrow> Inl ZeroDivisionError))"

text \<open>
  The cell "Adjust DEM bounds at extreme latitudes": two tests in sequence, the second on
  the bounds the first may have replaced; \<open>delta\<close> keeps its default 0.1.
\<close>

definition adjust_at ::
    "transformer \<Rightarrow> nat \<Rightarrow> bounds \<Rightarrow> py_error + bounds" where
  "adjust_at tr ref_crs scene_bounds =
     (case adjust_scene_poly_at_extreme_lat tr scene_bounds 4326 ref_crs (1 / 10) of
        Inl e \<Rightarrow> Inl e
      | Inr scene_poly \<Rightarrow> poly_bounds scene_poly)"

definition adjust_dem_bounds :: "transformer \<Rightarrow> bounds \<Rightarrow> py_error + bounds" where
  "adjust_dem_bounds tr scene_bounds =
     (case (case scene_bounds of (x0, y0, x1, y1) \<Rightarrow>
              if y0 < - 50 \<or> y1 < - 50 then adjust_at tr 3031 scene_bounds
              else Inr scene_bounds) of
        Inl e \<Rightarrow> Inl e
      | Inr (x0, y0, x1, y1) \<Rightarrow>
          if y0 > 50 \<or> y1 > 50 then adjust_at tr 3995 (x0, y0, x1, y1)
          else Inr (x0, y0, x1, y1))"

section \<open>Latitude and longitude bands\<close>




section \<open>Remote tile paths\<close>

text \<open>Python's \<open>str\<close> of a non-negative integer: its decimal digits, most significant first.\<close>

definition digit_char :: "nat \<Rightarrow> char" where
  "digit_char d = char_of (48 + d)"

fun str_nat :: "nat \<Rightarrow> string" where
  "str_nat n = (if n < 10 then [digit_char n] else str_nat (n div 10) @ [digit_char (n mod 10)])"

declare str_nat.simps [simp del]

text \<open>
  The format specification \<open>{i:0wd}\<close>: the decimal digits of the magnitude, filled with
  \<open>0\<close> on the left, after the sign, up to a total width of \<open>w\<close> characters.
\<close>

definition format_0d :: "nat \<Rightarrow> int \<Rightarrow> string" where
  "format_0d w i =
     (let s = str_nat (nat \<bar>i\<bar>)
      in if i < 0 then CHR ''-'' # replicate (w - 1 - length s) CHR ''0'' @ s
         else replicate (w - length s) CHR ''0'' @ s)"

text \<open>The body of the double loop: one path per pair \<open>(lat, long)\<close>.\<close>

definition dem_s3_path :: "int \<Rightarrow> int \<Rightarrow> string" where
  "dem_s3_path lat long =
     (let lat_dir = (if lat \<ge> 0 then ''N'' else ''S'');
          long_dir = (if long \<ge> 0 then ''E'' else ''W'')
      in ''Copernicus_DSM_COG_10_'' @ lat_dir @ format_0d 2 \<bar>lat\<bar> @ ''_00_'' @ long_dir
         @ format_0d 3 \<bar>long\<bar> @ ''_00_DEM/Copernicus_DSM_COG_10_'' @ lat_dir
         @ format_0d 2 \<bar>lat\<bar> @ ''_00_'' @ long_dir @ format_0d 3 \<bar>long\<bar> @ ''_00_DEM.tif'')"

text \<open>
  \<open>list(set(xs))\<close> keeps one copy of every element, in an order Python does not fix;
  \<open>remdups\<close> stands for it, and nothing below depends on the order.
\<close>

definition dem_s3_paths :: "int list \<Rightarrow> int list \<Rightarrow> string list" where
  "dem_s3_paths lats longs =
     remdups (concat (map (\<lambda>lat. map (\<lambda>long. dem_s3_path lat long) longs) lats))"

subsection \<open>The naming rule as the specification words it\<close>

text \<open>
  Zero-padding to \<open>w\<close> digits, positionally: the digit at each power of ten, over as many
  positions as the magnitude needs and never fewer than \<open>w\<close>.
\<close>

primrec last_digits :: "nat \<Rightarrow> nat \<Rightarrow> string" where
  "last_digits 0 n = []"
| "last_digits (Suc k) n = last_digits k (n div 10) @ [digit_char (n mod 10)]"

fun num_digits :: "nat \<Rightarrow> nat" where
  "num_digits n = (if n < 10 then 1 else Suc (num_digits (n div 10)))"

declare num_digits.simps [simp del]

definition zero_padded :: "nat \<Rightarrow> nat \<Rightarrow> string" where
  "zero_padded w n = last_digits (max w (num_digits n)) n"

definition tile_name_spec :: "int \<Rightarrow> int \<Rightarrow> string" where
  "tile_name_spec lat lon =
     ''Copernicus_DSM_COG_10_'' @ [if 0 \<le> lat then CHR ''N'' else CHR ''S'']
     @ zero_padded 2 (nat \<bar>lat\<bar>) @ ''_00_'' @ [if 0 \<le> lon then CHR ''E'' else CHR ''W'']
     @ zero_padded 3 (nat \<bar>lon\<bar>) @ ''_00_DEM''"

definition tile_path_spec :: "int \<Rightarrow> int \<Rightarrow> string" where
  "tile_path_spec lat lon = tile_name_spec lat lon @ ''/'' @ tile_name_spec lat lon @ ''.tif''"

section \<open>Downloading the tiles\<close>









subsection \<open>What the loop is expected to return\<close>



section \<open>Example inputs\<close>

text \<open>A two-by-two DEM with unit pixels whose extent is \<open>(0, 0, 2, 2)\<close>.\<close>

definition dem_2x2 :: raster where
  "dem_2x2 = \<lparr> west = 0, north = 2, res_x = 1, res_y = 1, width = 2, height = 2,
               nodata = None, pixels = [[5, 7], [3, 9]] \<rparr>"

section \<open>Properties of the expansion\<close>

lemmas expand_eval =
  ensure_dem_covers_def expand_raster_with_bounds_def array_bounds_def merge_max_def
  np_full_def pixel_at_def py_int_def Let_def upt_rec

text \<open>
  The padding on one side is never negative, whatever the sign of the pixel size:
  truncation toward zero gives a count with the sign of the quotient.
\<close>

lemma pad_nonneg:
  assumes "r \<noteq> 0" and "0 \<le> a"
  shows "0 \<le> real_of_int (py_int (a / r)) * r"
proof (cases "0 < r")
  case True
  with assms have "0 \<le> a / r" by simp
  then have "0 \<le> py_int (a / r)" by (simp add: py_int_def)
  with True show ?thesis by simp
next
  case False
  with assms have neg: "r < 0" by simp
  with assms have le: "a / r \<le> 0" by (simp add: divide_nonneg_neg)
  have "py_int (a / r) \<le> 0"
  proof (cases "a / r = 0")
    case True
    then have "py_int (a / r) = py_int 0" by (rule arg_cong)
    then show ?thesis by (simp add: py_int_def)
  next
    case False
    from False le have "a / r < 0" by (rule order.not_eq_order_implies_strict)
    then have "py_int (a / r) = \<lceil>a / r\<rceil>" by (simp add: py_int_def)
    moreover from le have "\<lceil>a / r\<rceil> \<le> 0" by (simp add: ceiling_le_zero)
    ultimately show ?thesis by simp
  qed
  then have "real_of_int (py_int (a / r)) \<le> 0" by simp
  with neg show ?thesis by (simp add: mult_nonpos_nonpos)
qed

text \<open>
  Claim C10.  \<open>expand_raster_with_bounds\<close> never shrinks the raster: for every pixel size
  on which the computation returns at all (a zero pixel size raises), and for every old
  and requested bounds, also requested bounds inside the old extent, the computed bounds
  exist and contain the old bounds on every side.
\<close>

theorem expand_never_shrinks:
  assumes "rx \<noteq> 0" and "ry \<noteq> 0"
  shows "\<exists>nb. adjusted_bounds (rx, ry) old_bounds new_bounds = Inr nb
              \<and> contains_bounds nb old_bounds"
proof -
  obtain ol ob or' ot where old: "old_bounds = (ol, ob, or', ot)"
    by (cases old_bounds) auto
  obtain nl nb nr nt where new: "new_bounds = (nl, nb, nr, nt)"
    by (cases new_bounds) auto
  have l: "0 \<le> real_of_int (py_int (\<bar>nl - ol\<bar> / rx)) * rx"
    using assms by (intro pad_nonneg) simp_all
  have b: "0 \<le> real_of_int (py_int (\<bar>nb - ob\<bar> / ry)) * ry"
    using assms by (intro pad_nonneg) simp_all
  have r: "0 \<le> real_of_int (py_int (\<bar>nr - or'\<bar> / rx)) * rx"
    using assms by (intro pad_nonneg) simp_all
  have t: "0 \<le> real_of_int (py_int (\<bar>nt - ot\<bar> / ry)) * ry"
    using assms by (intro pad_nonneg) simp_all
  show ?thesis using assms l b r t by (simp add: old new)
qed

text \<open>
  The requested bounds \<open>(1, 1/2, 3/2, 5/2)\<close> lie inside the extent \<open>(0, 0, 2, 2)\<close> on the
  left: the left edge still moves outward, to \<open>-1\<close>.
\<close>

theorem expand_never_shrinks_witness:
  "adjusted_bounds (1, 1) (0, 0, 2, 2) (1, 1 / 2, 3 / 2, 5 / 2) = Inr (- 1, 0, 2, 2)
   \<and> contains_bounds (- 1, 0, 2, 2) (0, 0, 2, 2)"
  using expand_never_shrinks [of 1 1 "(0, 0, 2, 2)" "(1, 1 / 2, 3 / 2, 5 / 2)"]
  by (simp add: py_int_def)

text \<open>
  Claim C1.  The claim asks that the expanded raster's extent contain the target box.
  On the DEM \<open>dem_2x2\<close> and the target \<open>(-3/2, 1/2, 3/2, 3/2)\<close>, whose left bound is one and
  a half pixels outside, \<open>int\<close> truncates the pixel count to one: the expanded raster
  ends at \<open>-1\<close> and does not contain the target.
\<close>

theorem expand_misses_target:
  "adjusted_bounds (1, 1) (0, 0, 2, 2) (- 3 / 2, 1 / 2, 3 / 2, 3 / 2) = Inr (- 1, 0, 2, 2)
   \<and> ensure_dem_covers dem_2x2 (- 3 / 2, 1 / 2, 3 / 2, 3 / 2) =
     Inr \<lparr> west = - 1, north = 2, res_x = 1, res_y = 1, width = 3, height = 2,
           nodata = None, pixels = [[0, 5, 7], [0, 3, 9]] \<rparr>
   \<and> array_bounds 2 3 \<lparr> west = - 1, north = 2, res_x = 1, res_y = 1, width = 3, height = 2,
           nodata = None, pixels = [[0, 5, 7], [0, 3, 9]] \<rparr> = (- 1, 0, 2, 2)
   \<and> \<not> contains_bounds (- 1, 0, 2, 2) (- 3 / 2, 1 / 2, 3 / 2, 3 / 2)"
  by (simp add: dem_2x2_def expand_eval)

text \<open>
  Claim C7.  The claim asks that expanding twice with the same target equal expanding
  once.  On \<open>dem_2x2\<close> and the target \<open>(1, 1/2, 3/2, 3)\<close>, whose left bound lies one pixel
  inside the DEM and whose top bound one pixel outside, the first expansion moves the top
  edge onto the target and the left edge, through \<open>abs\<close>, one pixel outward to \<open>-1\<close>.
  The top edges now coincide, so the bounds still do not properly contain the target, and
  the second expansion moves the left edge, two pixels away from the same target now,
  to \<open>-3\<close>.
\<close>

theorem expand_twice_differs:
  "ensure_dem_covers dem_2x2 (1, 1 / 2, 3 / 2, 3) =
     Inr \<lparr> west = - 1, north = 3, res_x = 1, res_y = 1, width = 3, height = 3,
           nodata = None, pixels = [[0, 0, 0], [0, 5, 7], [0, 3, 9]] \<rparr>
   \<and> ensure_dem_covers
       \<lparr> west = - 1, north = 3, res_x = 1, res_y = 1, width = 3, height = 3,
         nodata = None, pixels = [[0, 0, 0], [0, 5, 7], [0, 3, 9]] \<rparr> (1, 1 / 2, 3 / 2, 3) =
     Inr \<lparr> west = - 3, north = 3, res_x = 1, res_y = 1, width = 5, height = 3,
           nodata = None, pixels = [[0, 0, 0, 0, 0], [0, 0, 0, 5, 7], [0, 0, 0, 3, 9]] \<rparr>
   \<and> adjusted_bounds (1, 1) (0, 0, 2, 2) (1, 1 / 2, 3 / 2, 3) = Inr (- 1, 0, 2, 3)
   \<and> adjusted_bounds (1, 1) (- 1, 0, 2, 3) (1, 1 / 2, 3 / 2, 3) = Inr (- 3, 0, 2, 3)"
  by (simp add: dem_2x2_def expand_eval)

text \<open>
  The guard of the cell: a DEM whose bounds properly contain the scene bounds is left as
  it is.
\<close>

lemma ensure_dem_covers_guard:
  "contains_properly (array_bounds (height dem) (width dem) dem) scene_bounds \<Longrightarrow>
   ensure_dem_covers dem scene_bounds = Inr dem"
  by (simp add: ensure_dem_covers_def)

section \<open>Properties of the bounds adjustment and the band enumeration\<close>

text \<open>
  Claim C4.  For every bounding box whose two latitude bounds lie in \<open>[-50, 50]\<close>, the
  adjustment cell returns the box unchanged, whatever the coordinate transformation.
\<close>

theorem adjust_noop_below_threshold:
  assumes "- 50 \<le> y_min" "y_min \<le> 50" "- 50 \<le> y_max" "y_max \<le> 50"
  shows "adjust_dem_bounds tr (x_min, y_min, x_max, y_max) = Inr (x_min, y_min, x_max, y_max)"
  using assms by (simp add: adjust_dem_bounds_def)

theorem adjust_noop_below_threshold_witness:
  "adjust_dem_bounds (\<lambda>src dst p. (2 * fst p, 3 * snd p)) (130, - 50, 131, 50)
     = Inr (130, - 50, 131, 50)"
  using adjust_noop_below_threshold [of "- 50" 50 "\<lambda>src dst p. (2 * fst p, 3 * snd p)" 130 131]
  by simp




section \<open>Properties of the tile paths\<close>

text \<open>
  The decimal string Python prints and the positional digits agree, so filling with
  zeros on the left is the same as taking more positions.
\<close>

lemma length_str_nat: "length (str_nat n) = num_digits n"
  by (induction n rule: str_nat.induct) (subst str_nat.simps, subst num_digits.simps, simp)

lemma str_nat_last_digits: "str_nat n = last_digits (num_digits n) n"
  by (induction n rule: str_nat.induct) (subst str_nat.simps, subst num_digits.simps, simp)

lemma num_digits_pos: "0 < num_digits n"
  by (subst num_digits.simps) simp

lemma digit_char_0: "digit_char 0 = CHR ''0''"
  by code_simp

lemma length_last_digits: "length (last_digits k n) = k"
  by (induction k arbitrary: n) simp_all

lemma last_digits_small: "last_digits k 0 = replicate k (CHR ''0'')"
  by (induction k) (simp_all add: digit_char_0 replicate_append_same)

lemma last_digits_pad:
  "num_digits n \<le> k \<Longrightarrow> last_digits k n = replicate (k - num_digits n) (CHR ''0'') @ last_digits (num_digits n) n"
proof (induction k arbitrary: n)
  case 0
  then show ?case using num_digits_pos [of n] by simp
next
  case (Suc k)
  show ?case
  proof (cases "n < 10")
    case True
    then have nd: "num_digits n = 1" by (subst num_digits.simps) simp
    from True have "n div 10 = 0" by simp
    then show ?thesis using nd by (simp add: last_digits_small)
  next
    case False
    then have nd: "num_digits n = Suc (num_digits (n div 10))" by (subst num_digits.simps) simp
    with Suc.prems have "num_digits (n div 10) \<le> k" by simp
    from Suc.IH [OF this] show ?thesis using nd by simp
  qed
qed

lemma format_0d_zero_padded: "format_0d w (int n) = zero_padded w n"
proof (cases "num_digits n \<le> w")
  case True
  then show ?thesis
    by (simp add: format_0d_def zero_padded_def Let_def length_last_digits max_def last_digits_pad [OF True] str_nat_last_digits)
next
  case False
  then show ?thesis
    by (simp add: format_0d_def zero_padded_def Let_def length_last_digits max_def str_nat_last_digits)
qed

lemma dem_s3_path_spec: "dem_s3_path lat long = tile_path_spec lat long"
  using format_0d_zero_padded [of 2 "nat \<bar>lat\<bar>"] format_0d_zero_padded [of 3 "nat \<bar>long\<bar>"]
  by (simp add: dem_s3_path_def tile_path_spec_def tile_name_spec_def)


text \<open>Below 100 the padded latitude is exactly its two digits.\<close>

lemma zero_padded_2: "n < 100 \<Longrightarrow> zero_padded 2 n = [digit_char (n div 10), digit_char (n mod 10)]"
proof -
  assume "n < 100"
  then have "n div 10 < 10" by simp
  then have "num_digits n \<le> 2"
    by (subst num_digits.simps, subst num_digits.simps) simp
  then have "max 2 (num_digits n) = Suc (Suc 0)" by simp
  then show ?thesis using \<open>n div 10 < 10\<close> by (simp add: zero_padded_def)
qed

subsection \<open>Distinct bands have distinct names\<close>

text \<open>
  Digits are neither \<open>_\<close> nor \<open>/\<close>, so the two number fields of a name can be read
  back, and a name determines its pair of bands.
\<close>

lemma of_char_digit_char: "d < 10 \<Longrightarrow> (of_char (digit_char d) :: nat) = 48 + d"
  by (simp add: digit_char_def)

lemma digit_char_inj:
  assumes "a < 10" "b < 10" "digit_char a = digit_char b"
  shows "a = b"
proof -
  from assms(3) have "(of_char (digit_char a) :: nat) = of_char (digit_char b)" by simp
  with assms(1,2) show ?thesis by (simp only: of_char_digit_char add_left_cancel)
qed

lemma digit_char_not_sep:
  assumes "d < 10"
  shows "digit_char d \<noteq> CHR ''_''" and "digit_char d \<noteq> CHR ''/''"
proof -
  have v: "(of_char (digit_char d) :: nat) = 48 + d"
    using assms by (rule of_char_digit_char)
  show "digit_char d \<noteq> CHR ''_''"
  proof
    assume "digit_char d = CHR ''_''"
    then have "(of_char (digit_char d) :: nat) = of_char CHR ''_''" by (rule arg_cong)
    with v assms show False by simp
  qed
  show "digit_char d \<noteq> CHR ''/''"
  proof
    assume "digit_char d = CHR ''/''"
    then have "(of_char (digit_char d) :: nat) = of_char CHR ''/''" by (rule arg_cong)
    with v assms show False by simp
  qed
qed

lemma set_last_digits: "c \<in> set (last_digits k n) \<Longrightarrow> \<exists>d<10. c = digit_char d"
proof (induction k arbitrary: n)
  case 0
  then show ?case by simp
next
  case (Suc k)
  then show ?case
  proof (cases "c \<in> set (last_digits k (n div 10))")
    case True
    then show ?thesis by (rule Suc.IH)
  next
    case False
    with Suc.prems have "c = digit_char (n mod 10)" by simp
    moreover have "n mod 10 < 10" by simp
    ultimately show ?thesis by blast
  qed
qed

lemma last_digits_no_sep:
  shows "CHR ''_'' \<notin> set (last_digits k n)" and "CHR ''/'' \<notin> set (last_digits k n)"
proof -
  show "CHR ''_'' \<notin> set (last_digits k n)"
  proof
    assume "CHR ''_'' \<in> set (last_digits k n)"
    from set_last_digits [OF this] obtain d where "d < 10" and "CHR ''_'' = digit_char d"
      by (elim exE conjE)
    with digit_char_not_sep(1) [of d] show False by metis
  qed
  show "CHR ''/'' \<notin> set (last_digits k n)"
  proof
    assume "CHR ''/'' \<in> set (last_digits k n)"
    from set_last_digits [OF this] obtain d where "d < 10" and "CHR ''/'' = digit_char d"
      by (elim exE conjE)
    with digit_char_not_sep(2) [of d] show False by metis
  qed
qed

lemma zero_padded_no_sep:
  shows "CHR ''_'' \<notin> set (zero_padded w n)" and "CHR ''/'' \<notin> set (zero_padded w n)"
  unfolding zero_padded_def by (rule last_digits_no_sep)+

lemma last_digits_mod:
  "last_digits k n = last_digits k m \<Longrightarrow> n mod 10 ^ k = m mod 10 ^ k"
proof (induction k arbitrary: n m)
  case 0
  then show ?case by simp
next
  case (Suc k)
  from Suc.prems have tl: "last_digits k (n div 10) = last_digits k (m div 10)"
    and hd: "digit_char (n mod 10) = digit_char (m mod 10)" by simp_all
  from hd have d: "n mod 10 = m mod 10" by (intro digit_char_inj) simp_all
  from Suc.IH [OF tl] have "n div 10 mod 10 ^ k = m div 10 mod 10 ^ k" .
  with d show ?case by (simp add: mod_mult2_eq)
qed

lemma less_pow_num_digits: "n < 10 ^ num_digits n"
proof (induction n rule: num_digits.induct)
  case (1 n)
  show ?case
  proof (cases "n < 10")
    case True
    then show ?thesis by (subst num_digits.simps) simp
  next
    case False
    with 1 have "n div 10 < 10 ^ num_digits (n div 10)" by simp
    then have "n < 10 * 10 ^ num_digits (n div 10)" by simp
    with False show ?thesis by (subst num_digits.simps) simp
  qed
qed


lemma zero_padded_inj:
  assumes "zero_padded w n = zero_padded w m"
  shows "n = m"
proof -
  let ?k = "max w (num_digits n)" and ?j = "max w (num_digits m)"
  from assms have eq: "last_digits ?k n = last_digits ?j m" by (simp add: zero_padded_def)
  then have "length (last_digits ?k n) = length (last_digits ?j m)" by simp
  then have kj: "?k = ?j" by (simp add: length_last_digits)
  with eq have "n mod 10 ^ ?k = m mod 10 ^ ?k" by (intro last_digits_mod) simp
  moreover have "n < 10 ^ ?k"
    using less_pow_num_digits [of n] by (rule less_le_trans) simp
  moreover have "m < 10 ^ ?k"
    unfolding kj using less_pow_num_digits [of m] by (rule less_le_trans) simp
  ultimately show ?thesis by simp
qed

lemma append_sep_eq:
  assumes "c \<notin> set xs" "c \<notin> set ys" "xs @ c # r = ys @ c # s"
  shows "xs = ys \<and> r = s"
  using assms
proof (induction xs arbitrary: ys)
  case Nil
  then show ?case by (cases ys) auto
next
  case (Cons x xs)
  then show ?case by (cases ys) auto
qed

lemma tile_name_spec_inj:
  assumes "tile_name_spec a b = tile_name_spec a' b'"
  shows "a = a' \<and> b = b'"
proof -
  from assms have h: "(0 \<le> a) = (0 \<le> a')"
    and rest: "zero_padded 2 (nat \<bar>a\<bar>) @ CHR ''_'' # (''00_'' @ [if 0 \<le> b then CHR ''E'' else CHR ''W''] @ zero_padded 3 (nat \<bar>b\<bar>) @ ''_00_DEM'')
             = zero_padded 2 (nat \<bar>a'\<bar>) @ CHR ''_'' # (''00_'' @ [if 0 \<le> b' then CHR ''E'' else CHR ''W''] @ zero_padded 3 (nat \<bar>b'\<bar>) @ ''_00_DEM'')"
    by (auto simp: tile_name_spec_def split: if_splits)
  from append_sep_eq [OF zero_padded_no_sep(1) zero_padded_no_sep(1) rest]
  have za: "zero_padded 2 (nat \<bar>a\<bar>) = zero_padded 2 (nat \<bar>a'\<bar>)"
    and g: "(0 \<le> b) = (0 \<le> b')"
    and zb: "zero_padded 3 (nat \<bar>b\<bar>) = zero_padded 3 (nat \<bar>b'\<bar>)"
    by (auto split: if_splits)
  from zero_padded_inj [OF za] h have "a = a'" by auto
  moreover from zero_padded_inj [OF zb] g have "b = b'" by auto
  ultimately show ?thesis by simp
qed









lemma set_dem_s3_paths:
  "set (dem_s3_paths lats longs) = (\<lambda>(a, b). tile_path_spec a b) ` (set lats \<times> set longs)"
  by (auto simp: dem_s3_paths_def dem_s3_path_spec)

text \<open>
  Claim C9.  For every pair of integer bands the generated path is the one the naming rule
  prescribes: \<open>N\<close> or \<open>S\<close> and \<open>E\<close> or \<open>W\<close> by sign (zero counting as
  \<open>N\<close> and \<open>E\<close>), the latitude magnitude zero-padded to two digits, the longitude
  magnitude to three, in the pattern
  \<open>Copernicus_DSM_COG_10_{lat_dir}{lat}_00_{lon_dir}{lon}_00_DEM/...DEM.tif\<close>; and the list of
  generated paths has no duplicates and holds exactly the paths of the given bands.
\<close>

theorem dem_s3_paths_naming_rule:
  "dem_s3_path lat long = tile_path_spec lat long
   \<and> distinct (dem_s3_paths lats longs)
   \<and> set (dem_s3_paths lats longs) = (\<lambda>(a, b). tile_path_spec a b) ` (set lats \<times> set longs)"
proof (intro conjI)
  show "dem_s3_path lat long = tile_path_spec lat long" by (rule dem_s3_path_spec)
  show "distinct (dem_s3_paths lats longs)" by (simp add: dem_s3_paths_def)
  show "set (dem_s3_paths lats longs) = (\<lambda>(a, b). tile_path_spec a b) ` (set lats \<times> set longs)"
    by (rule set_dem_s3_paths)
qed

theorem dem_s3_paths_naming_rule_witness:
  "tile_path_spec (- 17) 130
     = ''Copernicus_DSM_COG_10_S17_00_E130_00_DEM/Copernicus_DSM_COG_10_S17_00_E130_00_DEM.tif''
   \<and> distinct (dem_s3_paths [- 17, - 16] [130, 130])
   \<and> set (dem_s3_paths [- 17, - 16] [130, 130]) = {tile_path_spec (- 17) 130, tile_path_spec (- 16) 130}"
proof -
  have "dem_s3_path (- 17) 130
     = ''Copernicus_DSM_COG_10_S17_00_E130_00_DEM/Copernicus_DSM_COG_10_S17_00_E130_00_DEM.tif''"
    by code_simp
  then show ?thesis
    using dem_s3_paths_naming_rule [of "- 17" 130 "[- 17, - 16]" "[130, 130]"] by auto
qed


section \<open>Properties of the download loop\<close>

















end
